theory Spec2Isabelle
  imports Main
begin

section \<open>Values, objects and the object store\<close>

text \<open>
  The library is written in TypeScript and runs as JavaScript. Several of its properties
  speak about object identity (\<open>return this\<close>, \<open>new Empty()\<close>, the shared constant
  \<open>empty\<close>) and about one mutation (\<open>Object.assign\<close> in \<open>group\<close>), so objects live
  in an explicit store and are referred to by address.

  Numbers are represented by integer values plus \<open>NaN\<close>; the library never computes with
  them, it only compares them with \<open>===\<close>.
\<close>

type_synonym addr = nat

datatype jsval =
    VUndefined
  | VNull
  | VBool bool
  | VNum int
  | VNaN
  | VBigInt int
  | VStr string
  | VSymbol nat
  | VRef addr

text \<open>
  An address that holds no object does not occur in a running program; \<open>typeof\<close> below
  gives \<open>"undefined"\<close> for it and a method call or \<open>in\<close> on it raises.

  The own properties of an object are data properties, a name and a value each. What an
  object inherits is kept as the list of the properties its prototype chain provides,
  nearest first, each with the way an assignment \<open>o[k] = v\<close> that finds it there
  behaves:
  \<^item> \<open>Writable\<close>: a writable data property; the assignment creates an own property of
    \<open>o\<close>;
  \<^item> \<open>Readonly\<close>: a data property that is not writable; the assignment fails;
  \<^item> \<open>Setter\<close>: an accessor with a setter; the setter runs, code that is not the
    module's;
  \<^item> \<open>No_setter\<close>: an accessor without a setter; the assignment fails;
  \<^item> \<open>Proto_setter\<close>: the accessor \<open>__proto__\<close> of \<open>Object.prototype\<close>; the assignment
    replaces the prototype of \<open>o\<close> and creates no property.
\<close>

datatype attr = Writable | Readonly | Setter | No_setter | Proto_setter

text \<open>
  What an object is. \<open>Empty_instance\<close> and \<open>Some_instance\<close> are the instances of the two
  classes of the module. Of the other objects,
  \<^item> \<open>Other callable inherited\<close> is an ordinary extensible object with writable own
    properties: whether it is a function (\<open>typeof\<close> gives \<open>"function"\<close>), and what it
    inherits;
  \<^item> \<open>Frozen callable inherited\<close> is such an object after \<open>Object.freeze\<close>: its own
    properties are not writable and it takes no new ones;
  \<^item> \<open>Through_proxy callable inherited revoked\<close> is an ordinary extensible object whose
    prototype chain, after the properties in \<open>inherited\<close>, runs into a proxy;
  \<^item> \<open>Proxy callable revoked\<close> is a proxy: every operation on it runs a trap of its
    handler, code that is not the module's, or raises when the proxy is revoked.
\<close>

datatype kind =
    Empty_instance
  | Some_instance
  | Other bool "(string \<times> attr) list"
  | Frozen bool "(string \<times> attr) list"
  | Through_proxy bool "(string \<times> attr) list" bool
  | Proxy bool bool

datatype obj = Obj (kind: kind) (props: "(string \<times> jsval) list")

type_synonym heap = "obj list"

definition lookup :: "heap \<Rightarrow> addr \<Rightarrow> obj option" where
  "lookup h a = (if a < length h then Some (h ! a) else None)"

text \<open>The operator \<open>===\<close>: identity of references, equality of primitives, and
  \<open>NaN\<close> different from everything.\<close>

definition strict_equals :: "jsval \<Rightarrow> jsval \<Rightarrow> bool" where
  "strict_equals a b = (a \<noteq> VNaN \<and> b \<noteq> VNaN \<and> a = b)"

text \<open>The conversion to boolean that \<open>c ? x : y\<close> applies to its condition.\<close>

fun truthy :: "jsval \<Rightarrow> bool" where
  "truthy VUndefined = False"
| "truthy VNull = False"
| "truthy (VBool b) = b"
| "truthy (VNum n) = (n \<noteq> 0)"
| "truthy VNaN = False"
| "truthy (VBigInt n) = (n \<noteq> 0)"
| "truthy (VStr s) = (s \<noteq> [])"
| "truthy (VSymbol n) = True"
| "truthy (VRef a) = True"

fun callable :: "kind \<Rightarrow> bool" where
  "callable Empty_instance = False"
| "callable Some_instance = False"
| "callable (Other c inh) = c"
| "callable (Frozen c inh) = c"
| "callable (Through_proxy c inh r) = c"
| "callable (Proxy c r) = c"


subsection \<open>Computations: a store, and a result or an exception\<close>

text \<open>
  \<open>TypeError\<close> is what the runtime raises while it runs code of the module: a method
  called on a value that does not have it, an assignment that fails, an operation on a
  revoked proxy. \<open>Thrown v\<close> is \<open>throw v\<close> in a callback of the caller. \<open>Outside\<close> is
  not an exception: the computation has reached code that is not the module's and that
  no argument of the model stands for (a method or a setter of a foreign object, a trap
  of a proxy), or a case of a runtime function that the module never reaches; the model
  does not follow it, and says so instead of giving a result. A computation takes the
  store and gives the store back together with either one of these or the result.
\<close>

datatype exn = TypeError | Thrown jsval | Outside

type_synonym 'a comp = "heap \<Rightarrow> (exn + 'a) \<times> heap"

definition ok :: "'a \<Rightarrow> 'a comp" where
  "ok x h = (Inr x, h)"

definition throw :: "exn \<Rightarrow> 'a comp" where
  "throw e h = (Inl e, h)"

definition seq :: "'a comp \<Rightarrow> ('a \<Rightarrow> 'b comp) \<Rightarrow> 'b comp" where
  "seq m f h = (case m h of (Inl e, h') \<Rightarrow> (Inl e, h') | (Inr x, h') \<Rightarrow> f x h')"

text \<open>\<open>new\<close>: the object gets the next free address.\<close>

definition new :: "obj \<Rightarrow> addr comp" where
  "new ob h = (Inr (length h), h @ [ob])"

text \<open>Reading a property of an object (\<open>this.value\<close>); a missing property reads as
  \<open>undefined\<close>.\<close>

definition get_field :: "addr \<Rightarrow> string \<Rightarrow> jsval comp" where
  "get_field a f h =
     (case lookup h a of
        Some ob \<Rightarrow> (Inr (case map_of (props ob) f of Some v \<Rightarrow> v | None \<Rightarrow> VUndefined), h)
      | None \<Rightarrow> (Inl TypeError, h))"

section \<open>class Empty\<close>

definition new_Empty :: "addr comp" where
  "new_Empty = new (Obj Empty_instance [])"


definition Empty_isEmpty :: "addr \<Rightarrow> bool comp" where
  "Empty_isEmpty this = ok True"

definition Empty_map :: "addr \<Rightarrow> (jsval \<Rightarrow> jsval comp) \<Rightarrow> addr comp" where
  "Empty_map this func = ok this"

definition Empty_chain :: "addr \<Rightarrow> (jsval \<Rightarrow> addr comp) \<Rightarrow> addr comp" where
  "Empty_chain this func = ok this"

definition Empty_filter :: "addr \<Rightarrow> (jsval \<Rightarrow> jsval comp) \<Rightarrow> addr comp" where
  "Empty_filter this func = ok this"

definition Empty_getOrNull :: "addr \<Rightarrow> jsval comp" where
  "Empty_getOrNull this = ok VNull"

definition Empty_getOrUndefined :: "addr \<Rightarrow> jsval comp" where
  "Empty_getOrUndefined this = ok VUndefined"

definition Empty_getOrElse :: "addr \<Rightarrow> jsval \<Rightarrow> jsval comp" where
  "Empty_getOrElse this defaultValue = ok defaultValue"



definition Empty_backUp :: "addr \<Rightarrow> addr \<Rightarrow> addr comp" where
  "Empty_backUp this another = ok another"

section \<open>class Some\<close>

definition new_Some :: "jsval \<Rightarrow> addr comp" where
  "new_Some v = new (Obj Some_instance [(''value'', v)])"


definition Some_isEmpty :: "addr \<Rightarrow> bool comp" where
  "Some_isEmpty this = ok False"

definition Some_map :: "addr \<Rightarrow> (jsval \<Rightarrow> jsval comp) \<Rightarrow> addr comp" where
  "Some_map this func =
     seq (get_field this ''value'') (\<lambda>v. seq (func v) (\<lambda>r. new_Some r))"

definition Some_filter :: "addr \<Rightarrow> (jsval \<Rightarrow> jsval comp) \<Rightarrow> addr comp" where
  "Some_filter this func =
     seq (get_field this ''value'') (\<lambda>v. seq (func v)
       (\<lambda>r. if truthy r then ok this else new_Empty))"

definition Some_chain :: "addr \<Rightarrow> (jsval \<Rightarrow> addr comp) \<Rightarrow> addr comp" where
  "Some_chain this func = seq (get_field this ''value'') (\<lambda>v. func v)"

definition Some_getOrNull :: "addr \<Rightarrow> jsval comp" where
  "Some_getOrNull this = get_field this ''value''"

definition Some_getOrUndefined :: "addr \<Rightarrow> jsval comp" where
  "Some_getOrUndefined this = get_field this ''value''"

definition Some_getOrElse :: "addr \<Rightarrow> jsval \<Rightarrow> jsval comp" where
  "Some_getOrElse this defaultValue = get_field this ''value''"



definition Some_backUp :: "addr \<Rightarrow> addr \<Rightarrow> addr comp" where
  "Some_backUp this another = ok this"

section \<open>interface Optional: method calls\<close>

text \<open>
  A call \<open>x.m(...)\<close> on a value of type \<open>Optional\<close> runs the method of the class of the
  object at \<open>x\<close>. On an object that is not an instance of one of the two classes, the
  call runs what that object has under the name \<open>m\<close> (or raises, when it has nothing
  callable there): that is \<open>Outside\<close>. On a revoked proxy the runtime raises.
\<close>

definition dispatch :: "addr \<Rightarrow> (addr \<Rightarrow> 'a comp) \<Rightarrow> (addr \<Rightarrow> 'a comp) \<Rightarrow> 'a comp" where
  "dispatch this emp som h =
     (case lookup h this of
        Some (Obj Empty_instance ps) \<Rightarrow> emp this h
      | Some (Obj Some_instance ps) \<Rightarrow> som this h
      | Some (Obj (Other c inh) ps) \<Rightarrow> (Inl Outside, h)
      | Some (Obj (Frozen c inh) ps) \<Rightarrow> (Inl Outside, h)
      | Some (Obj (Through_proxy c inh r) ps) \<Rightarrow> (Inl Outside, h)
      | Some (Obj (Proxy c r) ps) \<Rightarrow> (if r then (Inl TypeError, h) else (Inl Outside, h))
      | None \<Rightarrow> (Inl TypeError, h))"


definition Optional_isEmpty :: "addr \<Rightarrow> bool comp" where
  "Optional_isEmpty x = dispatch x Empty_isEmpty Some_isEmpty"

definition Optional_map :: "addr \<Rightarrow> (jsval \<Rightarrow> jsval comp) \<Rightarrow> addr comp" where
  "Optional_map x func = dispatch x (\<lambda>this. Empty_map this func) (\<lambda>this. Some_map this func)"

definition Optional_chain :: "addr \<Rightarrow> (jsval \<Rightarrow> addr comp) \<Rightarrow> addr comp" where
  "Optional_chain x func =
     dispatch x (\<lambda>this. Empty_chain this func) (\<lambda>this. Some_chain this func)"

definition Optional_filter :: "addr \<Rightarrow> (jsval \<Rightarrow> jsval comp) \<Rightarrow> addr comp" where
  "Optional_filter x func =
     dispatch x (\<lambda>this. Empty_filter this func) (\<lambda>this. Some_filter this func)"

definition Optional_getOrNull :: "addr \<Rightarrow> jsval comp" where
  "Optional_getOrNull x = dispatch x Empty_getOrNull Some_getOrNull"

definition Optional_getOrUndefined :: "addr \<Rightarrow> jsval comp" where
  "Optional_getOrUndefined x = dispatch x Empty_getOrUndefined Some_getOrUndefined"

definition Optional_getOrElse :: "addr \<Rightarrow> jsval \<Rightarrow> jsval comp" where
  "Optional_getOrElse x defaultValue =
     dispatch x (\<lambda>this. Empty_getOrElse this defaultValue)
                (\<lambda>this. Some_getOrElse this defaultValue)"



definition Optional_backUp :: "addr \<Rightarrow> addr \<Rightarrow> addr comp" where
  "Optional_backUp x another =
     dispatch x (\<lambda>this. Empty_backUp this another) (\<lambda>this. Some_backUp this another)"

text \<open>
  \<open>isEqual\<close> calls methods of \<open>another\<close>, so its two implementations come after the
  method calls they use. The comparator is an optional parameter; the result of
  \<open>Some.isEqual\<close> is whatever \<open>getOrElse(false)\<close> returns.
\<close>

definition Empty_isEqual ::
    "addr \<Rightarrow> addr \<Rightarrow> (jsval \<Rightarrow> jsval \<Rightarrow> jsval comp) option \<Rightarrow> jsval comp" where
  "Empty_isEqual this another compareFunc =
     seq (Optional_isEmpty another) (\<lambda>b. ok (VBool b))"

definition Some_isEqual ::
    "addr \<Rightarrow> addr \<Rightarrow> (jsval \<Rightarrow> jsval \<Rightarrow> jsval comp) option \<Rightarrow> jsval comp" where
  "Some_isEqual this another compareFunc =
     seq (Optional_map another
            (\<lambda>anotherValue.
               (case compareFunc of
                  Some cmp \<Rightarrow> seq (get_field this ''value'') (\<lambda>v. cmp v anotherValue)
                | None \<Rightarrow> seq (get_field this ''value'')
                           (\<lambda>v. ok (VBool (strict_equals v anotherValue))))))
         (\<lambda>m. Optional_getOrElse m (VBool False))"

definition Optional_isEqual ::
    "addr \<Rightarrow> addr \<Rightarrow> (jsval \<Rightarrow> jsval \<Rightarrow> jsval comp) option \<Rightarrow> jsval comp" where
  "Optional_isEqual x another compareFunc =
     dispatch x (\<lambda>this. Empty_isEqual this another compareFunc)
                (\<lambda>this. Some_isEqual this another compareFunc)"

section \<open>Constructors\<close>

text \<open>
  \<open>export const empty = new Empty()\<close> runs once, when the module is loaded: it is the
  first object of the module, at address \<open>empty_const\<close>. \<open>module_init\<close> is the store
  right after loading, and \<open>loaded h\<close> says that \<open>h\<close> is a store in which the module has
  been loaded.
\<close>

definition empty_const :: addr where
  "empty_const = 0"

definition module_init :: heap where
  "module_init = snd (new_Empty [])"

definition loaded :: "heap \<Rightarrow> bool" where
  "loaded h = (lookup h empty_const = Some (Obj Empty_instance []))"

definition some :: "jsval \<Rightarrow> addr comp" where
  "some v = new_Some v"

definition fromNullable :: "jsval \<Rightarrow> addr comp" where
  "fromNullable v =
     (if strict_equals v VNull \<or> strict_equals v VUndefined then ok empty_const else some v)"



text \<open>The two variants, as predicates on an address of the store.\<close>

definition absent :: "heap \<Rightarrow> addr \<Rightarrow> bool" where
  "absent h a = (lookup h a = Some (Obj Empty_instance []))"

definition present :: "heap \<Rightarrow> addr \<Rightarrow> jsval \<Rightarrow> bool" where
  "present h a v = (lookup h a = Some (Obj Some_instance [(''value'', v)]))"

section \<open>Combinators\<close>

subsection \<open>group\<close>

text \<open>
  The properties of \<open>Object.prototype\<close> as the language creates it: writable data
  properties, and the accessor \<open>__proto__\<close>. The prototype of a class of the module has
  the twelve methods and \<open>constructor\<close>, writable data properties, and
  \<open>Object.prototype\<close> behind it.
\<close>

definition Object_prototype_names :: "(string \<times> attr) list" where
  "Object_prototype_names =
     [(''constructor'', Writable), (''hasOwnProperty'', Writable),
      (''isPrototypeOf'', Writable), (''propertyIsEnumerable'', Writable),
      (''toLocaleString'', Writable), (''toString'', Writable), (''valueOf'', Writable),
      (''__proto__'', Proto_setter),
      (''__defineGetter__'', Writable), (''__defineSetter__'', Writable),
      (''__lookupGetter__'', Writable), (''__lookupSetter__'', Writable)]"

definition class_method_names :: "string list" where
  "class_method_names =
     [''constructor'', ''isPresent'', ''isEmpty'', ''map'', ''chain'', ''filter'',
      ''getOrNull'', ''getOrUndefined'', ''getOrElse'', ''isEqual'', ''ifPresent'',
      ''ifAbsent'', ''backUp'']"

definition class_prototype :: "(string \<times> attr) list" where
  "class_prototype = map (\<lambda>n. (n, Writable)) class_method_names"

text \<open>What an object inherits, whether it is a proxy, and the proxy that its prototype
  chain runs into (\<open>Some revoked\<close>), if any.\<close>

fun inherited :: "kind \<Rightarrow> (string \<times> attr) list" where
  "inherited Empty_instance = class_prototype @ Object_prototype_names"
| "inherited Some_instance = class_prototype @ Object_prototype_names"
| "inherited (Other c inh) = inh"
| "inherited (Frozen c inh) = inh"
| "inherited (Through_proxy c inh r) = inh"
| "inherited (Proxy c r) = []"

fun is_proxy :: "kind \<Rightarrow> bool" where
  "is_proxy (Proxy c r) = True"
| "is_proxy Empty_instance = False"
| "is_proxy Some_instance = False"
| "is_proxy (Other c inh) = False"
| "is_proxy (Frozen c inh) = False"
| "is_proxy (Through_proxy c inh r) = False"

fun proxy_in_chain :: "kind \<Rightarrow> bool option" where
  "proxy_in_chain (Through_proxy c inh r) = Some r"
| "proxy_in_chain (Proxy c r) = Some r"
| "proxy_in_chain Empty_instance = None"
| "proxy_in_chain Some_instance = None"
| "proxy_in_chain (Other c inh) = None"
| "proxy_in_chain (Frozen c inh) = None"

text \<open>Whether the own properties of an object are writable, and whether it takes new
  ones.\<close>

fun own_attr :: "kind \<Rightarrow> attr" where
  "own_attr (Frozen c inh) = Readonly"
| "own_attr Empty_instance = Writable"
| "own_attr Some_instance = Writable"
| "own_attr (Other c inh) = Writable"
| "own_attr (Through_proxy c inh r) = Writable"
| "own_attr (Proxy c r) = Writable"

fun extensible :: "kind \<Rightarrow> bool" where
  "extensible (Frozen c inh) = False"
| "extensible Empty_instance = True"
| "extensible Some_instance = True"
| "extensible (Other c inh) = True"
| "extensible (Through_proxy c inh r) = True"
| "extensible (Proxy c r) = True"

text \<open>
  An object literal \<open>{ k1: v1, ... }\<close>: a new plain object, whose prototype is
  \<open>Object.prototype\<close>. \<open>Object.prototype\<close> is taken as the language creates it: a
  program that freezes it or gives it further properties is outside the model.
\<close>

definition object_literal :: "(string \<times> jsval) list \<Rightarrow> addr comp" where
  "object_literal ps = new (Obj (Other False Object_prototype_names) ps)"

text \<open>Writing an own data property: an existing property keeps its place, a new one
  comes last.\<close>

fun set_property :: "string \<Rightarrow> jsval \<Rightarrow> (string \<times> jsval) list \<Rightarrow> (string \<times> jsval) list" where
  "set_property k v [] = [(k, v)]"
| "set_property k v ((k', v') # ps) =
     (if k = k' then (k, v) # ps else (k', v') # set_property k v ps)"

text \<open>
  What an object provides to an object that has it as prototype: its own properties,
  then what it inherits. \<open>reparent\<close> is the kind of an object after its prototype has been
  replaced by the object \<open>ob\<close>. The chain is a list of properties and not a chain of
  pointers: a later change of \<open>ob\<close> would not show in it (the module makes none), and of
  the cycles that \<open>__proto__\<close> refuses only the direct one is seen.
\<close>

definition provided :: "obj \<Rightarrow> (string \<times> attr) list" where
  "provided ob = map (\<lambda>(n, v). (n, own_attr (kind ob))) (props ob) @ inherited (kind ob)"

definition reparent :: "kind \<Rightarrow> obj \<Rightarrow> kind" where
  "reparent k ob =
     (case proxy_in_chain (kind ob) of
        None \<Rightarrow> Other (callable k) (provided ob)
      | Some r \<Rightarrow> Through_proxy (callable k) (provided ob) r)"

text \<open>
  The setter of \<open>__proto__\<close>, called on the object at \<open>t\<close> with the value \<open>v\<close>: an object
  or \<open>null\<close> becomes the prototype, any other value is ignored. No own property is
  created. On an object that is not extensible the setter raises unless \<open>v\<close> is the
  prototype the object already has, which the list of inherited properties does not
  tell: \<open>Outside\<close>.
\<close>

definition proto_setter :: "addr \<Rightarrow> jsval \<Rightarrow> unit comp" where
  "proto_setter t v h =
     (case lookup h t of
        None \<Rightarrow> (Inl TypeError, h)
      | Some (Obj kt pt) \<Rightarrow>
          (case v of
             VRef a \<Rightarrow>
               (case lookup h a of
                  None \<Rightarrow> (Inl TypeError, h)
                | Some ob \<Rightarrow>
                    if \<not> extensible kt then (Inl Outside, h)
                    else if a = t then (Inl TypeError, h)
                    else (Inr (), h[t := Obj (reparent kt ob) pt]))
           | VNull \<Rightarrow>
               if \<not> extensible kt then (Inl Outside, h)
               else (Inr (), h[t := Obj (Other (callable kt) []) pt])
           | _ \<Rightarrow> (Inr (), h)))"

text \<open>
  The assignment \<open>o[k] = v\<close> in strict mode, for the object \<open>o\<close> at \<open>t\<close>. An own property
  is overwritten if it is writable. Otherwise the property is looked for along the
  prototype chain, and what is found there decides (see \<open>attr\<close>); when nothing is found
  the object gets a new own property, if it is extensible. An assignment that fails
  raises \<open>TypeError\<close>.
\<close>

definition assign_property :: "addr \<Rightarrow> string \<Rightarrow> jsval \<Rightarrow> unit comp" where
  "assign_property t k v h =
     (case lookup h t of
        None \<Rightarrow> (Inl TypeError, h)
      | Some (Obj kt pt) \<Rightarrow>
          if is_proxy kt then
            (case proxy_in_chain kt of
               Some True \<Rightarrow> (Inl TypeError, h)
             | _ \<Rightarrow> (Inl Outside, h))
          else if k \<in> set (map fst pt) then
            (if own_attr kt = Writable
             then (Inr (), h[t := Obj kt (set_property k v pt)])
             else (Inl TypeError, h))
          else
            (case map_of (inherited kt) k of
               Some Writable \<Rightarrow>
                 if extensible kt then (Inr (), h[t := Obj kt (set_property k v pt)])
                 else (Inl TypeError, h)
             | Some Readonly \<Rightarrow> (Inl TypeError, h)
             | Some Setter \<Rightarrow> (Inl Outside, h)
             | Some No_setter \<Rightarrow> (Inl TypeError, h)
             | Some Proto_setter \<Rightarrow> proto_setter t v h
             | None \<Rightarrow>
                 (case proxy_in_chain kt of
                    Some True \<Rightarrow> (Inl TypeError, h)
                  | Some False \<Rightarrow> (Inl Outside, h)
                  | None \<Rightarrow>
                      if extensible kt then (Inr (), h[t := Obj kt (set_property k v pt)])
                      else (Inl TypeError, h))))"

fun assign_all :: "addr \<Rightarrow> (string \<times> jsval) list \<Rightarrow> unit comp" where
  "assign_all t [] = ok ()"
| "assign_all t ((k, v) # ps) = seq (assign_property t k v) (\<lambda>u. assign_all t ps)"

text \<open>
  \<open>Object.assign(target, source)\<close> for two objects: every own property of the source, in
  order, is assigned on the target with \<open>target[k] = v\<close>, and the target is returned; the
  first assignment that fails ends it. A target that is \<open>null\<close> or \<open>undefined\<close> raises.
  The module calls it on two ordinary objects; a source that is a proxy and arguments
  that are not objects (which JavaScript boxes or skips) are \<open>Outside\<close>.
\<close>

definition Object_assign :: "jsval \<Rightarrow> jsval \<Rightarrow> jsval comp" where
  "Object_assign target source h =
     (case target of
        VRef t \<Rightarrow>
          (case source of
             VRef s \<Rightarrow>
               (case lookup h s of
                  None \<Rightarrow> (Inl TypeError, h)
                | Some ob \<Rightarrow>
                    if is_proxy (kind ob) then (Inl Outside, h)
                    else seq (assign_all t (props ob)) (\<lambda>u. ok target) h)
           | _ \<Rightarrow> (Inl Outside, h))
      | VNull \<Rightarrow> (Inl TypeError, h)
      | VUndefined \<Rightarrow> (Inl TypeError, h)
      | _ \<Rightarrow> (Inl Outside, h))"

text \<open>\<open>Array.prototype.reduce\<close> with an initial value, over a callback that may raise.\<close>

fun reduce :: "('b \<Rightarrow> 'a \<Rightarrow> 'b comp) \<Rightarrow> 'a list \<Rightarrow> 'b \<Rightarrow> 'b comp" where
  "reduce f [] acc = ok acc"
| "reduce f (x # xs) acc = seq (f acc x) (\<lambda>acc'. reduce f xs acc')"

text \<open>
  The argument of \<open>group\<close> is an object whose own enumerable properties with string
  keys are Optionals (\<open>Object.keys\<close> gives no other property); it is only read, so it is
  given by these entries, in the order of \<open>Object.keys\<close>. \<open>partial[key]\<close> is
  \<open>map_of partial key\<close>; were it \<open>undefined\<close>, calling \<open>map\<close> on it would raise.
\<close>

definition group_callback :: "(string \<times> addr) list \<Rightarrow> addr \<Rightarrow> string \<Rightarrow> addr comp" where
  "group_callback partial acc key =
     Optional_chain acc (\<lambda>complete.
       (case map_of partial key of
          Some optionalValue \<Rightarrow>
            Optional_map optionalValue (\<lambda>value.
              seq (object_literal [(key, value)])
                  (\<lambda>lit. Object_assign complete (VRef lit)))
        | None \<Rightarrow> throw TypeError))"

definition group :: "(string \<times> addr) list \<Rightarrow> addr comp" where
  "group partial =
     seq (object_literal []) (\<lambda>initial.
       seq (some (VRef initial)) (\<lambda>start.
         reduce (group_callback partial) (map fst partial) start))"

subsection \<open>instanceOfOptional\<close>





section \<open>isEqual as the specification words it\<close>

text \<open>
  The specification's expression for \<open>isEqual\<close> on a Present holding \<open>v\<close>:
  \<open>b.map(w => compareFunc ? compareFunc(v, w) : v === w).getOrElse(false)\<close>,
  with \<open>v\<close> the payload rather than a read of \<open>this.value\<close>.
\<close>

definition isEqual_spec ::
    "jsval \<Rightarrow> addr \<Rightarrow> (jsval \<Rightarrow> jsval \<Rightarrow> jsval comp) option \<Rightarrow> jsval comp" where
  "isEqual_spec v b compareFunc =
     seq (Optional_map b
            (\<lambda>w. (case compareFunc of
                    Some cmp \<Rightarrow> cmp v w
                  | None \<Rightarrow> ok (VBool (strict_equals v w)))))
         (\<lambda>m. Optional_getOrElse m (VBool False))"

section \<open>Chains of calls\<close>

text \<open>
  A finite chain \<open>x.m1(f1).m2(f2)...\<close> of \<open>map\<close>, \<open>chain\<close> and \<open>filter\<close> calls, each
  applied to the result of the one before.
\<close>

datatype step =
    Map_step "jsval \<Rightarrow> jsval comp"
  | Chain_step "jsval \<Rightarrow> addr comp"
  | Filter_step "jsval \<Rightarrow> jsval comp"

fun apply_step :: "step \<Rightarrow> addr \<Rightarrow> addr comp" where
  "apply_step (Map_step func) x = Optional_map x func"
| "apply_step (Chain_step func) x = Optional_chain x func"
| "apply_step (Filter_step func) x = Optional_filter x func"

fun apply_steps :: "step list \<Rightarrow> addr \<Rightarrow> addr comp" where
  "apply_steps [] x = ok x"
| "apply_steps (s # ss) x = seq (apply_step s x) (\<lambda>y. apply_steps ss y)"

section \<open>The payload of an Optional\<close>

text \<open>What \<open>x.getOrUndefined()\<close> returns in store \<open>h\<close>: the value a Present holds.\<close>

definition payload :: "heap \<Rightarrow> addr \<Rightarrow> jsval" where
  "payload h x = (case fst (Optional_getOrUndefined x h) of Inr v \<Rightarrow> v | Inl e \<Rightarrow> VUndefined)"

section \<open>Objects without a proxy\<close>


section \<open>Outcomes of a call\<close>



section \<open>Example stores\<close>

text \<open>The store after \<open>const a = some(1); const b = some(2)\<close> in a freshly loaded
  module: \<open>empty\<close> at address 0, \<open>a\<close> at 1, \<open>b\<close> at 2.\<close>

definition two_somes :: heap where
  "two_somes = snd (seq (some (VNum 1)) (\<lambda>a. some (VNum 2)) module_init)"



section \<open>Basic facts about the store\<close>

lemma lookup_append_old: "a < length h \<Longrightarrow> lookup (h @ xs) a = lookup h a"
  by (simp add: lookup_def nth_append)

lemma lookup_append_new: "lookup (h @ [ob]) (length h) = Some ob"
  by (simp add: lookup_def)

lemma absent_lt: "absent h a \<Longrightarrow> a < length h"
  by (simp add: absent_def lookup_def split: if_splits)

lemma present_lt: "present h a v \<Longrightarrow> a < length h"
  by (simp add: present_def lookup_def split: if_splits)

lemma dispatch_absent: "absent h a \<Longrightarrow> dispatch a emp som h = emp a h"
  by (simp add: dispatch_def absent_def)

lemma dispatch_present: "present h a v \<Longrightarrow> dispatch a emp som h = som a h"
  by (simp add: dispatch_def present_def)

lemma get_value_present: "present h a v \<Longrightarrow> get_field a ''value'' h = (Inr v, h)"
  by (simp add: get_field_def present_def)

lemma module_init_eq: "module_init = [Obj Empty_instance []]"
  by (simp add: module_init_def new_Empty_def new_def)

lemma loaded_module_init: "loaded module_init"
  by (simp add: loaded_def module_init_eq lookup_def empty_const_def)

lemma loaded_absent: "loaded h \<Longrightarrow> absent h empty_const"
  by (simp add: loaded_def absent_def)

lemma some_eq: "some v h = (Inr (length h), h @ [Obj Some_instance [(''value'', v)]])"
  by (simp add: some_def new_Some_def new_def)

lemma some_present: "present (h @ [Obj Some_instance [(''value'', v)]]) (length h) v"
  by (simp add: present_def lookup_append_new)

lemma two_somes_eq:
  "two_somes = [Obj Empty_instance [], Obj Some_instance [(''value'', VNum 1)],
                Obj Some_instance [(''value'', VNum 2)]]"
  by (simp add: two_somes_def seq_def some_eq module_init_eq)

section \<open>fromNullable\<close>

text \<open>
  C5. In a store where the module is loaded, \<open>fromNullable(v)\<close> returns the shared
  constant \<open>empty\<close> (an Absent, and no object is created) when \<open>v\<close> is \<open>null\<close> or
  \<open>undefined\<close>; for every other \<open>v\<close> it returns a Present holding \<open>v\<close>, which is not
  the shared constant. In particular \<open>0\<close> and the empty string give a Present.
\<close>

theorem fromNullable_spec:
  assumes "loaded h"
  shows "(v = VNull \<or> v = VUndefined \<longrightarrow>
            fromNullable v h = (Inr empty_const, h) \<and> absent h empty_const) \<and>
         (v \<noteq> VNull \<and> v \<noteq> VUndefined \<longrightarrow>
            (\<exists>r h'. fromNullable v h = (Inr r, h') \<and> present h' r v \<and> r \<noteq> empty_const)) \<and>
         (\<exists>r h'. fromNullable (VNum 0) h = (Inr r, h') \<and> present h' r (VNum 0)) \<and>
         (\<exists>r h'. fromNullable (VStr []) h = (Inr r, h') \<and> present h' r (VStr []))"
proof -
  have pos: "0 < length h"
    using assms by (simp add: loaded_def lookup_def empty_const_def split: if_splits)
  have nonnull: "fromNullable w h = (Inr (length h), h @ [Obj Some_instance [(''value'', w)]])"
    if "w \<noteq> VNull" "w \<noteq> VUndefined" for w
    using that by (simp add: fromNullable_def strict_equals_def some_eq)
  have null: "fromNullable w h = (Inr empty_const, h)" if "w = VNull \<or> w = VUndefined" for w
    using that by (auto simp: fromNullable_def strict_equals_def ok_def)
  show ?thesis
    using pos null [of v] nonnull [of v] nonnull [of "VNum 0"] nonnull [of "VStr []"]
      loaded_absent [OF assms]
    by (auto simp: some_present empty_const_def)
qed

theorem fromNullable_spec_witness:
  "loaded module_init \<and>
   fromNullable VNull module_init = (Inr empty_const, module_init) \<and>
   absent module_init empty_const \<and>
   (\<exists>r h'. fromNullable (VNum 0) module_init = (Inr r, h') \<and> present h' r (VNum 0))"
  using fromNullable_spec [of module_init VNull] loaded_module_init
  by simp

section \<open>backUp\<close>

text \<open>
  C8. On a Present receiver holding \<open>A\<close>, \<open>backUp(b)\<close> returns the receiver itself and
  leaves the store as it is, whatever \<open>b\<close> is (\<open>b\<close> is not looked at: it need not even be
  an Optional), so \<open>getOrNull()\<close> of the result is \<open>A\<close>. On an Absent receiver it returns
  \<open>b\<close> itself, so with \<open>b\<close> a Present holding \<open>B\<close>, \<open>getOrNull()\<close> of the result is
  \<open>B\<close>. The last conjunct is the program \<open>some(A).backUp(some(B)).getOrNull()\<close>.
\<close>

theorem backUp_spec:
  "(present h a A \<longrightarrow>
      Optional_backUp a b h = (Inr a, h) \<and>
      seq (Optional_backUp a b) Optional_getOrNull h = (Inr A, h)) \<and>
   (absent h a \<longrightarrow>
      Optional_backUp a b h = (Inr b, h) \<and>
      (present h b B \<longrightarrow> seq (Optional_backUp a b) Optional_getOrNull h = (Inr B, h))) \<and>
   fst (seq (some A) (\<lambda>x. seq (some B) (\<lambda>y. seq (Optional_backUp x y) Optional_getOrNull)) h)
     = Inr A"
proof -
  have "present h a A \<Longrightarrow> Optional_backUp a b h = (Inr a, h)"
    by (simp add: Optional_backUp_def dispatch_present Some_backUp_def ok_def)
  moreover have "present h a A \<Longrightarrow> Optional_getOrNull a h = (Inr A, h)" for h a A
    by (simp add: Optional_getOrNull_def dispatch_present Some_getOrNull_def get_value_present)
  moreover have "absent h a \<Longrightarrow> Optional_backUp a b h = (Inr b, h)"
    by (simp add: Optional_backUp_def dispatch_absent Empty_backUp_def ok_def)
  moreover have "present (h @ [Obj Some_instance [(''value'', A)],
                   Obj Some_instance [(''value'', B)]]) (length h) A"
    by (simp add: present_def lookup_def nth_append)
  ultimately show ?thesis
    by (simp add: seq_def some_eq Optional_backUp_def dispatch_present Some_backUp_def ok_def)
qed

theorem backUp_spec_witness:
  "present two_somes 1 (VNum 1) \<and>
   seq (Optional_backUp 1 2) Optional_getOrNull two_somes = (Inr (VNum 1), two_somes) \<and>
   absent two_somes 0 \<and> present two_somes 2 (VNum 2) \<and>
   seq (Optional_backUp 0 2) Optional_getOrNull two_somes = (Inr (VNum 2), two_somes)"
  using backUp_spec [of two_somes 1 "VNum 1" 2 "VNum 2"]
    backUp_spec [of two_somes 0 "VNum 1" 2 "VNum 2"]
  by (simp add: present_def absent_def lookup_def two_somes_eq)

section \<open>group on the empty record\<close>

text \<open>
  C9. \<open>group({})\<close> creates the empty record and a Present holding it, and returns that
  Present: the result is not Absent.
\<close>

theorem group_empty_record:
  "group [] h = (Inr (Suc (length h)),
                 h @ [Obj (Other False Object_prototype_names) [],
                      Obj Some_instance [(''value'', VRef (length h))]]) \<and>
   present (snd (group [] h)) (Suc (length h)) (VRef (length h)) \<and>
   lookup (snd (group [] h)) (length h) = Some (Obj (Other False Object_prototype_names) []) \<and>
   \<not> absent (snd (group [] h)) (Suc (length h))"
  by (simp add: group_def object_literal_def new_def seq_def some_eq ok_def
      present_def absent_def lookup_def nth_append)

lemma filter_present:
  "present h a v \<Longrightarrow>
   Optional_filter a p h =
     (case p v h of
        (Inl e, h1) \<Rightarrow> (Inl e, h1)
      | (Inr r, h1) \<Rightarrow> if truthy r then (Inr a, h1)
                       else (Inr (length h1), h1 @ [Obj Empty_instance []]))"
  by (simp add: Optional_filter_def dispatch_present Some_filter_def seq_def get_value_present
      ok_def new_Empty_def new_def split: prod.splits sum.splits)

lemma filter_absent: "absent h a \<Longrightarrow> Optional_filter a p h = (Inr a, h)"
  by (simp add: Optional_filter_def dispatch_absent Empty_filter_def ok_def)

lemma map_absent: "absent h a \<Longrightarrow> Optional_map a f h = (Inr a, h)"
  by (simp add: Optional_map_def dispatch_absent Empty_map_def ok_def)

lemma chain_absent: "absent h a \<Longrightarrow> Optional_chain a f h = (Inr a, h)"
  by (simp add: Optional_chain_def dispatch_absent Empty_chain_def ok_def)

section \<open>filter\<close>

text \<open>
  C7. On a Present receiver holding \<open>v\<close>, \<open>filter(p)\<close> calls \<open>p(v)\<close>; when the answer is
  true it returns the receiver itself, and when it is false it returns a new instance of
  \<open>Empty\<close>: an object that did not exist before the call, so (in a store that the
  predicate has not shrunk) it is neither the receiver nor the shared constant. On an
  Absent receiver \<open>filter(p)\<close> returns the receiver itself and leaves the store as it is
  for every \<open>p\<close>, also one that would raise or write: \<open>p\<close> is not called.
\<close>

theorem filter_spec:
  "(present h a v \<and> p v h = (Inr r, h1) \<and> truthy r \<longrightarrow>
      Optional_filter a p h = (Inr a, h1)) \<and>
   (present h a v \<and> p v h = (Inr r, h1) \<and> \<not> truthy r \<longrightarrow>
      Optional_filter a p h = (Inr (length h1), h1 @ [Obj Empty_instance []]) \<and>
      lookup h1 (length h1) = None \<and>
      absent (h1 @ [Obj Empty_instance []]) (length h1) \<and>
      (length h \<le> length h1 \<longrightarrow> length h1 \<noteq> a \<and> length h1 \<noteq> empty_const)) \<and>
   (absent h a \<longrightarrow> Optional_filter a p h = (Inr a, h))"
proof -
  have "a < length h" if "present h a v"
    using that by (rule present_lt)
  then show ?thesis
    by (auto simp: filter_present filter_absent lookup_def absent_def empty_const_def)
qed

theorem filter_spec_witness:
  "present two_somes 1 (VNum 1) \<and>
   Optional_filter 1 (\<lambda>v. ok (VBool (v = VNum 1))) two_somes = (Inr 1, two_somes) \<and>
   Optional_filter 1 (\<lambda>v. ok (VBool (v = VNum 2))) two_somes
     = (Inr 3, two_somes @ [Obj Empty_instance []]) \<and>
   absent two_somes 0 \<and>
   Optional_filter 0 (\<lambda>v. throw (Thrown v)) two_somes = (Inr 0, two_somes)"
  using filter_spec [of two_somes 1 "VNum 1" "\<lambda>v. ok (VBool (v = VNum 1))" "VBool True" two_somes]
    filter_spec [of two_somes 1 "VNum 1" "\<lambda>v. ok (VBool (v = VNum 2))" "VBool False" two_somes]
    filter_spec [of two_somes 0 "VNum 1" "\<lambda>v. throw (Thrown v)"]
  by (simp add: present_def absent_def lookup_def two_somes_eq ok_def)

section \<open>Absent is absorbing\<close>

lemma apply_steps_absent: "absent h a \<Longrightarrow> apply_steps ss a h = (Inr a, h)"
proof (induction ss)
  case Nil
  then show ?case by (simp add: ok_def)
next
  case (Cons s ss)
  then have "apply_step s a h = (Inr a, h)"
    by (cases s) (simp_all add: map_absent chain_absent filter_absent)
  with Cons show ?case by (simp add: seq_def)
qed

text \<open>
  C10. On an Absent receiver \<open>map\<close>, \<open>chain\<close> and \<open>filter\<close> return the receiver itself
  and leave the store as it is, for every callback (also one that would raise or write,
  so none is called). Hence every finite chain of such calls that starts at the shared
  constant \<open>empty\<close> returns \<open>empty\<close> and creates no object.
\<close>

theorem absent_is_absorbing:
  "(absent h a \<longrightarrow>
      Optional_map a f h = (Inr a, h) \<and>
      Optional_chain a g h = (Inr a, h) \<and>
      Optional_filter a p h = (Inr a, h) \<and>
      apply_steps ss a h = (Inr a, h)) \<and>
   (loaded h \<longrightarrow> apply_steps ss empty_const h = (Inr empty_const, h))"
  by (simp add: map_absent chain_absent filter_absent apply_steps_absent loaded_absent)

theorem absent_is_absorbing_witness:
  "loaded two_somes \<and>
   apply_steps [Map_step (\<lambda>v. throw (Thrown v)), Filter_step (\<lambda>v. ok (VBool True)),
                Chain_step (\<lambda>v. some v)] empty_const two_somes = (Inr empty_const, two_somes) \<and>
   absent two_somes 0 \<and>
   Optional_map 0 (\<lambda>v. throw (Thrown v)) two_somes = (Inr 0, two_somes)"
  using absent_is_absorbing [of two_somes 0 "\<lambda>v. throw (Thrown v)" "\<lambda>v. some v"
      "\<lambda>v. ok (VBool True)"
      "[Map_step (\<lambda>v. throw (Thrown v)), Filter_step (\<lambda>v. ok (VBool True)),
                Chain_step (\<lambda>v. some v)]"]
  by (simp add: loaded_def absent_def lookup_def two_somes_eq empty_const_def)

section \<open>isEqual\<close>

lemma isEmpty_absent: "absent h a \<Longrightarrow> Optional_isEmpty a h = (Inr True, h)"
  by (simp add: Optional_isEmpty_def dispatch_absent Empty_isEmpty_def ok_def)

lemma isEmpty_present: "present h a v \<Longrightarrow> Optional_isEmpty a h = (Inr False, h)"
  by (simp add: Optional_isEmpty_def dispatch_present Some_isEmpty_def ok_def)

lemma getOrElse_absent: "absent h a \<Longrightarrow> Optional_getOrElse a d h = (Inr d, h)"
  by (simp add: Optional_getOrElse_def dispatch_absent Empty_getOrElse_def ok_def)

lemma getOrElse_present: "present h a v \<Longrightarrow> Optional_getOrElse a d h = (Inr v, h)"
  by (simp add: Optional_getOrElse_def dispatch_present Some_getOrElse_def get_value_present)

lemma map_present:
  "present h a v \<Longrightarrow>
   Optional_map a f h =
     (case f v h of
        (Inl e, h1) \<Rightarrow> (Inl e, h1)
      | (Inr r, h1) \<Rightarrow> (Inr (length h1), h1 @ [Obj Some_instance [(''value'', r)]]))"
  by (simp add: Optional_map_def dispatch_present Some_map_def seq_def get_value_present
      new_Some_def new_def split: prod.splits sum.splits)

lemma isEqual_present_refines:
  assumes "present h a v"
  shows "Optional_isEqual a b cf h = isEqual_spec v b cf h"
proof -
  let ?F = "\<lambda>anotherValue.
               (case cf of
                  Some cmp \<Rightarrow> seq (get_field a ''value'') (\<lambda>v. cmp v anotherValue)
                | None \<Rightarrow> seq (get_field a ''value'')
                           (\<lambda>v. ok (VBool (strict_equals v anotherValue))))"
  let ?G = "\<lambda>w. (case cf of Some cmp \<Rightarrow> cmp v w | None \<Rightarrow> ok (VBool (strict_equals v w)))"
  have call: "?F w h = ?G w h" for w
    using assms by (simp add: seq_def get_value_present split: option.splits)
  have "Optional_map b ?F h = Optional_map b ?G h"
    unfolding Optional_map_def dispatch_def Empty_map_def Some_map_def
    by (simp add: seq_def get_field_def call split: option.splits obj.splits kind.splits)
  then show ?thesis
    by (simp add: Optional_isEqual_def dispatch_present [OF assms] Some_isEqual_def
        isEqual_spec_def seq_def)
qed

lemma isEqual_present_present:
  assumes "present h a v" "present h b w"
  shows "fst (Optional_isEqual a b None h) = Inr (VBool (strict_equals v w))"
  by (simp add: isEqual_present_refines [OF assms(1)] isEqual_spec_def seq_def
      map_present [OF assms(2)] ok_def getOrElse_present [OF some_present])

lemma isEqual_present_present_cmp:
  assumes "present h a v" "present h b w" "cmp v w h = (Inr r, h1)"
  shows "fst (Optional_isEqual a b (Some cmp) h) = Inr r"
  by (simp add: isEqual_present_refines [OF assms(1)] isEqual_spec_def seq_def
      map_present [OF assms(2)] assms(3) getOrElse_present [OF some_present])

lemma isEqual_present_absent:
  assumes "present h a v" "absent h b"
  shows "Optional_isEqual a b cf h = (Inr (VBool False), h)"
  by (simp add: isEqual_present_refines [OF assms(1)] isEqual_spec_def seq_def
      Optional_map_def dispatch_absent [OF assms(2)] Empty_map_def ok_def
      getOrElse_absent [OF assms(2)])

lemma isEqual_absent:
  assumes "absent h a"
  shows "Optional_isEqual a b cf h = seq (Optional_isEmpty b) (\<lambda>x. ok (VBool x)) h"
  by (simp add: Optional_isEqual_def dispatch_absent [OF assms] Empty_isEqual_def)

text \<open>
  C3. On a Present receiver holding \<open>v\<close>, \<open>isEqual(b, compareFunc)\<close> is the
  specification's expression \<open>b.map(w => compareFunc ? compareFunc(v, w) : v ===
  w).getOrElse(false)\<close>: same result, same store. On an Absent receiver it is
  \<open>b.isEmpty()\<close>. Consequences: without a comparator two Presents compare by \<open>===\<close>,
  so Presents holding two different object references compare unequal; with a comparator
  the answer on two Presents is what the comparator returns; a Present and an Absent are
  unequal either way round; two Absents are equal.
\<close>

theorem isEqual_spec_holds:
  "(present h a v \<longrightarrow> Optional_isEqual a b cf h = isEqual_spec v b cf h) \<and>
   (absent h a \<longrightarrow>
      Optional_isEqual a b cf h = seq (Optional_isEmpty b) (\<lambda>x. ok (VBool x)) h) \<and>
   (present h a v \<and> present h b w \<longrightarrow>
      fst (Optional_isEqual a b None h) = Inr (VBool (strict_equals v w))) \<and>
   (present h a (VRef x) \<and> present h b (VRef y) \<and> x \<noteq> y \<longrightarrow>
      fst (Optional_isEqual a b None h) = Inr (VBool False)) \<and>
   (present h a v \<and> present h b w \<and> cmp v w h = (Inr r, h1) \<longrightarrow>
      fst (Optional_isEqual a b (Some cmp) h) = Inr r) \<and>
   (present h a v \<and> absent h b \<longrightarrow> Optional_isEqual a b cf h = (Inr (VBool False), h)) \<and>
   (absent h a \<and> present h b w \<longrightarrow> Optional_isEqual a b cf h = (Inr (VBool False), h)) \<and>
   (absent h a \<and> absent h b \<longrightarrow> Optional_isEqual a b cf h = (Inr (VBool True), h))"
proof (intro conjI impI)
  assume "present h a (VRef x) \<and> present h b (VRef y) \<and> x \<noteq> y"
  then show "fst (Optional_isEqual a b None h) = Inr (VBool False)"
    using isEqual_present_present [of h a "VRef x" b "VRef y"]
    by (simp add: strict_equals_def)
next
  assume "absent h a \<and> present h b w"
  then show "Optional_isEqual a b cf h = (Inr (VBool False), h)"
    by (simp add: isEqual_absent seq_def isEmpty_present [of h b w] ok_def)
next
  assume "absent h a \<and> absent h b"
  then show "Optional_isEqual a b cf h = (Inr (VBool True), h)"
    by (simp add: isEqual_absent seq_def isEmpty_absent ok_def)
next
  assume "present h a v \<and> present h b w \<and> cmp v w h = (Inr r, h1)"
  then show "fst (Optional_isEqual a b (Some cmp) h) = Inr r"
    using isEqual_present_present_cmp [of h a v b w cmp r h1] by simp
next
  assume "present h a v \<and> absent h b"
  then show "Optional_isEqual a b cf h = (Inr (VBool False), h)"
    using isEqual_present_absent [of h a v b cf] by simp
next
  assume "present h a v \<and> present h b w"
  then show "fst (Optional_isEqual a b None h) = Inr (VBool (strict_equals v w))"
    using isEqual_present_present [of h a v b w] by simp
qed (simp_all add: isEqual_present_refines isEqual_absent)

theorem isEqual_spec_holds_witness:
  "present two_somes 1 (VNum 1) \<and> present two_somes 2 (VNum 2) \<and> absent two_somes 0 \<and>
   Optional_isEqual 1 2 None two_somes = isEqual_spec (VNum 1) 2 None two_somes \<and>
   fst (Optional_isEqual 1 2 None two_somes) = Inr (VBool False) \<and>
   fst (Optional_isEqual 1 1 None two_somes) = Inr (VBool True) \<and>
   Optional_isEqual 1 0 None two_somes = (Inr (VBool False), two_somes) \<and>
   Optional_isEqual 0 1 None two_somes = (Inr (VBool False), two_somes) \<and>
   Optional_isEqual 0 0 None two_somes = (Inr (VBool True), two_somes)"
proof -
  have p1: "present two_somes 1 (VNum 1)" and p2: "present two_somes 2 (VNum 2)"
    and a0: "absent two_somes 0"
    by (simp_all add: present_def absent_def lookup_def two_somes_eq)
  have s12: "strict_equals (VNum 1) (VNum 2) = False"
    and s11: "strict_equals (VNum 1) (VNum 1) = True"
    by (simp_all add: strict_equals_def)
  note t12 = isEqual_spec_holds [of two_somes 1 "VNum 1" 2 None "VNum 2" 0 0
      "\<lambda>x y. ok (VBool True)" "VBool True" two_somes]
  note t11 = isEqual_spec_holds [of two_somes 1 "VNum 1" 1 None "VNum 1" 0 0
      "\<lambda>x y. ok (VBool True)" "VBool True" two_somes]
  note t10 = isEqual_spec_holds [of two_somes 1 "VNum 1" 0 None "VNum 1" 0 0
      "\<lambda>x y. ok (VBool True)" "VBool True" two_somes]
  note t01 = isEqual_spec_holds [of two_somes 0 "VNum 1" 1 None "VNum 1" 0 0
      "\<lambda>x y. ok (VBool True)" "VBool True" two_somes]
  note t00 = isEqual_spec_holds [of two_somes 0 "VNum 1" 0 None "VNum 1" 0 0
      "\<lambda>x y. ok (VBool True)" "VBool True" two_somes]
  have c1: "Optional_isEqual 1 2 None two_somes = isEqual_spec (VNum 1) 2 None two_somes"
    using t12 [THEN conjunct1] p1 by (rule mp)
  have c2: "fst (Optional_isEqual 1 2 None two_somes) = Inr (VBool False)"
    using t12 [THEN conjunct2, THEN conjunct2, THEN conjunct1] p1 p2 s12 by simp
  have c3: "fst (Optional_isEqual 1 1 None two_somes) = Inr (VBool True)"
    using t11 [THEN conjunct2, THEN conjunct2, THEN conjunct1] p1 s11 by simp
  have c4: "Optional_isEqual 1 0 None two_somes = (Inr (VBool False), two_somes)"
    using t10 [THEN conjunct2, THEN conjunct2, THEN conjunct2, THEN conjunct2, THEN conjunct2,
        THEN conjunct1] p1 a0 by simp
  have c5: "Optional_isEqual 0 1 None two_somes = (Inr (VBool False), two_somes)"
    using t01 [THEN conjunct2, THEN conjunct2, THEN conjunct2, THEN conjunct2, THEN conjunct2,
        THEN conjunct2, THEN conjunct1] p1 a0 by simp
  have c6: "Optional_isEqual 0 0 None two_somes = (Inr (VBool True), two_somes)"
    using t00 [THEN conjunct2, THEN conjunct2, THEN conjunct2, THEN conjunct2, THEN conjunct2,
        THEN conjunct2, THEN conjunct2] a0 by simp
  show ?thesis
    by (intro conjI p1 p2 a0 c1 c2 c3 c4 c5 c6)
qed

section \<open>instanceOfOptional\<close>















section \<open>group\<close>

lemma payload_present: "present h a v \<Longrightarrow> payload h a = v"
  by (simp add: payload_def Optional_getOrUndefined_def dispatch_present
      Some_getOrUndefined_def get_value_present)

lemma chain_present:
  "present h a v \<Longrightarrow> Optional_chain a f h = f v h"
  by (simp add: Optional_chain_def dispatch_present Some_chain_def seq_def get_value_present)

lemma reduce_append:
  "reduce f (xs @ ys) acc h =
     (case reduce f xs acc h of
        (Inl e, h') \<Rightarrow> (Inl e, h')
      | (Inr acc', h') \<Rightarrow> reduce f ys acc' h')"
proof (induction xs arbitrary: acc h)
  case Nil
  show ?case by (simp add: ok_def)
next
  case (Cons x xs)
  show ?case
    by (simp add: seq_def Cons.IH split: prod.splits sum.splits)
qed

lemma group_callback_absent:
  "absent h acc \<Longrightarrow> group_callback partial acc key h = (Inr acc, h)"
  by (simp add: group_callback_def chain_absent)

lemma reduce_group_absent:
  "absent h acc \<Longrightarrow> reduce (group_callback partial) ks acc h = (Inr acc, h)"
  by (induction ks) (simp_all add: ok_def seq_def group_callback_absent)

lemma group_callback_present_absent:
  assumes "present h acc c" "map_of partial key = Some e" "absent h e"
  shows "group_callback partial acc key h = (Inr e, h)"
  by (simp add: group_callback_def chain_present [OF assms(1)] assms(2) map_absent [OF assms(3)])

lemma standard_chain:
  "key \<noteq> ''__proto__'' \<Longrightarrow>
   map_of Object_prototype_names key = None \<or>
   map_of Object_prototype_names key = Some Writable"
  by (simp add: Object_prototype_names_def)

lemma assign_property_record:
  assumes "lookup h t = Some (Obj (Other False Object_prototype_names) pt)"
    and "key \<noteq> ''__proto__''"
  shows "assign_property t key v h =
           (Inr (), h[t := Obj (Other False Object_prototype_names) (set_property key v pt)])"
  using standard_chain [OF assms(2)]
  by (auto simp: assign_property_def assms(1))

lemma Object_assign_literal:
  assumes "lookup h t = Some (Obj (Other False Object_prototype_names) pt)"
    and "key \<noteq> ''__proto__''"
  shows "Object_assign (VRef t) (VRef (length h))
           (h @ [Obj (Other False Object_prototype_names) [(key, v)]]) =
           (Inr (VRef t),
            (h @ [Obj (Other False Object_prototype_names) [(key, v)]])
              [t := Obj (Other False Object_prototype_names) (set_property key v pt)])"
proof -
  have "t < length h"
    using assms(1) by (simp add: lookup_def split: if_splits)
  then have l: "lookup (h @ [Obj (Other False Object_prototype_names) [(key, v)]]) t
                  = Some (Obj (Other False Object_prototype_names) pt)"
    using assms(1) by (simp add: lookup_append_old)
  show ?thesis
    by (simp add: Object_assign_def lookup_append_new seq_def ok_def
        assign_property_record [OF l assms(2)])
qed

lemma group_callback_present_present:
  assumes "present h acc (VRef t)"
    "lookup h t = Some (Obj (Other False Object_prototype_names) pt)"
    "map_of partial key = Some ov" "present h ov v" "key \<noteq> ''__proto__''"
  shows "group_callback partial acc key h =
           (Inr (Suc (length h)),
            (h @ [Obj (Other False Object_prototype_names) [(key, v)]])
              [t := Obj (Other False Object_prototype_names) (set_property key v pt)]
            @ [Obj Some_instance [(''value'', VRef t)]])"
  by (simp add: group_callback_def chain_present [OF assms(1)] assms(3)
      map_present [OF assms(4)] seq_def object_literal_def new_def
      Object_assign_literal [OF assms(2) assms(5)])


lemma reduce_group_present:
  assumes "\<forall>k \<in> set ks. \<exists>ov v. map_of partial k = Some ov \<and> present h0 ov v"
    and "\<forall>a < length h0. lookup h a = lookup h0 a"
    and "present h acc (VRef (length h0))"
    and "lookup h (length h0) = Some (Obj (Other False Object_prototype_names) ps)"
    and "''__proto__'' \<notin> set ks"
  shows "\<exists>r h'. reduce (group_callback partial) ks acc h = (Inr r, h') \<and>
           present h' r (VRef (length h0)) \<and>
           lookup h' (length h0) =
             Some (Obj (Other False Object_prototype_names)
                    (fold (\<lambda>k. set_property k (payload h0 (the (map_of partial k)))) ks ps)) \<and>
           (\<forall>a < length h0. lookup h' a = lookup h0 a)"
  using assms
proof (induction ks arbitrary: h acc ps)
  case Nil
  then show ?case by (simp add: ok_def)
next
  case (Cons k ks)
  obtain ov v where ov: "map_of partial k = Some ov" "present h0 ov v"
    using Cons.prems(1) by auto
  have ov_lt: "ov < length h0"
    using ov(2) by (rule present_lt)
  have ov_h: "present h ov v"
    using ov(2) ov_lt Cons.prems(2) by (simp add: present_def)
  have n_lt: "length h0 < length h"
    using Cons.prems(4) by (simp add: lookup_def split: if_splits)
  let ?h1 = "(h @ [Obj (Other False Object_prototype_names) [(k, v)]])
              [length h0 := Obj (Other False Object_prototype_names) (set_property k v ps)]
            @ [Obj Some_instance [(''value'', VRef (length h0))]]"
  have step: "group_callback partial acc k h = (Inr (Suc (length h)), ?h1)"
    using Cons.prems(5)
    by (intro group_callback_present_present [OF Cons.prems(3) Cons.prems(4) ov(1) ov_h]) auto
  have frame: "\<forall>a < length h0. lookup ?h1 a = lookup h0 a"
    using Cons.prems(2) n_lt by (simp add: lookup_def nth_append)
  have acc1: "present ?h1 (Suc (length h)) (VRef (length h0))"
    by (simp add: present_def lookup_def nth_append)
  have rec1: "lookup ?h1 (length h0)
                = Some (Obj (Other False Object_prototype_names) (set_property k v ps))"
    using n_lt by (simp add: lookup_def nth_append)
  have rest: "\<forall>k \<in> set ks. \<exists>ov v. map_of partial k = Some ov \<and> present h0 ov v"
    using Cons.prems(1) by simp
  have np: "''__proto__'' \<notin> set ks"
    using Cons.prems(5) by simp
  from Cons.IH [OF rest frame acc1 rec1 np]
  show ?case
    by (simp add: seq_def step ov(1) payload_present [OF ov(2)])
qed

lemma set_property_new:
  "k \<notin> fst ` set ps \<Longrightarrow> set_property k v ps = ps @ [(k, v)]"
  by (induction ps) auto

lemma fold_set_property:
  assumes "distinct (map fst es)" "fst ` set es \<inter> fst ` set ps = {}"
    and "\<forall>(k, a) \<in> set es. m k = Some a"
  shows "fold (\<lambda>k. set_property k (payload h (the (m k)))) (map fst es) ps
           = ps @ map (\<lambda>(k, a). (k, payload h a)) es"
  using assms
proof (induction es arbitrary: ps)
  case Nil
  then show ?case by simp
next
  case (Cons e es)
  obtain k a where e: "e = (k, a)" by (cases e)
  have new: "k \<notin> fst ` set ps"
    using Cons.prems(2) by (auto simp: e)
  have m: "m k = Some a"
    using Cons.prems(3) by (simp add: e)
  have d: "distinct (map fst es)"
    using Cons.prems(1) by simp
  have disj: "fst ` set es \<inter> fst ` set (ps @ [(k, a')]) = {}" for a'
    using Cons.prems(1,2) by (auto simp: e)
  have rest: "\<forall>(k, a) \<in> set es. m k = Some a"
    using Cons.prems(3) by simp
  show ?case
    by (simp add: e set_property_new [OF new] m Cons.IH [OF d disj rest])
qed


lemma group_pre_rest:
  assumes d: "distinct (map fst (pre @ rest))"
    and p: "\<forall>(k, a) \<in> set pre. \<exists>v. present h a v"
    and r: "rest = [] \<or> absent h (snd (hd rest))"
    and np: "''__proto__'' \<notin> set (map fst pre)"
  shows "\<exists>res h'. group (pre @ rest) h = (Inr res, h') \<and>
           lookup h' (length h) =
             Some (Obj (Other False Object_prototype_names)
                    (map (\<lambda>(k, a). (k, payload h a)) pre)) \<and>
           (\<forall>a < length h. lookup h' a = lookup h a) \<and>
           (rest = [] \<longrightarrow> present h' res (VRef (length h))) \<and>
           (rest \<noteq> [] \<longrightarrow> res = snd (hd rest) \<and> absent h' res)"
proof -
  let ?partial = "pre @ rest"
  let ?h2 = "h @ [Obj (Other False Object_prototype_names) [],
                  Obj Some_instance [(''value'', VRef (length h))]]"
  let ?cb = "group_callback ?partial"
  have m: "map_of ?partial k = Some a" if "(k, a) \<in> set ?partial" for k a
    using d that by (intro map_of_is_SomeI) auto
  have start: "group ?partial h = reduce ?cb (map fst pre @ map fst rest) (Suc (length h)) ?h2"
    by (simp add: group_def object_literal_def new_def seq_def some_eq)
  have a1: "\<forall>k \<in> set (map fst pre). \<exists>ov v. map_of ?partial k = Some ov \<and> present h ov v"
  proof
    fix k assume "k \<in> set (map fst pre)"
    then obtain a where ka: "(k, a) \<in> set pre" by auto
    then obtain v where "present h a v" using p by auto
    moreover have "map_of ?partial k = Some a" using ka by (intro m) simp
    ultimately show "\<exists>ov v. map_of ?partial k = Some ov \<and> present h ov v" by blast
  qed
  have a2: "\<forall>a < length h. lookup ?h2 a = lookup h a"
    by (simp add: lookup_def nth_append)
  have a3: "present ?h2 (Suc (length h)) (VRef (length h))"
    by (simp add: present_def lookup_def nth_append)
  have a4: "lookup ?h2 (length h) = Some (Obj (Other False Object_prototype_names) [])"
    by (simp add: lookup_def nth_append)
  obtain r1 h3 where loop: "reduce ?cb (map fst pre) (Suc (length h)) ?h2 = (Inr r1, h3)"
    and acc: "present h3 r1 (VRef (length h))"
    and rec: "lookup h3 (length h) =
                Some (Obj (Other False Object_prototype_names)
                  (fold (\<lambda>k. set_property k (payload h (the (map_of ?partial k))))
                     (map fst pre) []))"
    and frame: "\<forall>a < length h. lookup h3 a = lookup h a"
    using reduce_group_present [OF a1 a2 a3 a4 np] by blast
  have "fold (\<lambda>k. set_property k (payload h (the (map_of ?partial k)))) (map fst pre) []
          = [] @ map (\<lambda>(k, a). (k, payload h a)) pre"
    using d m by (intro fold_set_property) auto
  then have rec': "lookup h3 (length h) =
                Some (Obj (Other False Object_prototype_names)
                  (map (\<lambda>(k, a). (k, payload h a)) pre))"
    using rec by simp
  have g: "group ?partial h = reduce ?cb (map fst rest) r1 h3"
    by (simp add: start reduce_append loop)
  show ?thesis
  proof (cases rest)
    case Nil
    have "group ?partial h = (Inr r1, h3)"
      unfolding g by (simp add: Nil ok_def)
    with acc rec' frame Nil show ?thesis by blast
  next
    case (Cons x rest')
    obtain k0 e where x: "x = (k0, e)" by (cases x)
    have e_abs: "absent h e"
      using r Cons x by simp
    then have "e < length h" by (rule absent_lt)
    then have e_abs3: "absent h3 e"
      using e_abs frame by (simp add: absent_def)
    have me: "map_of ?partial k0 = Some e"
      by (intro m) (simp add: Cons x)
    have ks: "map fst rest = k0 # map fst rest'"
      by (simp add: Cons x)
    have fin: "group ?partial h = (Inr e, h3)"
      unfolding g ks
      by (simp add: seq_def group_callback_present_absent [OF acc me e_abs3]
          reduce_group_absent [OF e_abs3])
    have "snd (hd rest) = e" "rest \<noteq> []"
      by (simp_all add: Cons x)
    with fin rec' frame e_abs3 show ?thesis by blast
  qed
qed


lemma split_at_first_absent:
  assumes "\<forall>(k, a) \<in> set partial. absent h a \<or> (\<exists>v. present h a v)"
  defines "pre \<equiv> takeWhile (\<lambda>(k, a). \<not> absent h a) partial"
    and "rest \<equiv> dropWhile (\<lambda>(k, a). \<not> absent h a) partial"
  shows "partial = pre @ rest"
    and "\<forall>(k, a) \<in> set pre. \<exists>v. present h a v"
    and "rest = [] \<or> absent h (snd (hd rest))"
    and "rest = [] \<longleftrightarrow> (\<forall>(k, a) \<in> set partial. \<not> absent h a)"
proof -
  show "partial = pre @ rest"
    by (simp add: pre_def rest_def)
  show "\<forall>(k, a) \<in> set pre. \<exists>v. present h a v"
    using assms(1) unfolding pre_def by (auto dest!: set_takeWhileD)
  show "rest = [] \<or> absent h (snd (hd rest))"
    using hd_dropWhile [of "\<lambda>(k, a). \<not> absent h a" partial]
    unfolding rest_def by (auto simp: case_prod_beta)
  show "rest = [] \<longleftrightarrow> (\<forall>(k, a) \<in> set partial. \<not> absent h a)"
    unfolding rest_def by (auto simp: dropWhile_eq_Nil_conv)
qed

lemma group_general:
  assumes d: "distinct (map fst partial)"
    and o: "\<forall>(k, a) \<in> set partial. absent h a \<or> (\<exists>v. present h a v)"
    and np: "''__proto__'' \<notin> set (map fst partial)"
  shows "\<exists>res h'. group partial h = (Inr res, h') \<and>
           lookup h' (length h) =
             Some (Obj (Other False Object_prototype_names)
                    (map (\<lambda>(k, a). (k, payload h a))
                       (takeWhile (\<lambda>(k, a). \<not> absent h a) partial))) \<and>
           (\<forall>a < length h. lookup h' a = lookup h a) \<and>
           ((\<forall>(k, a) \<in> set partial. \<not> absent h a) \<longrightarrow> present h' res (VRef (length h))) \<and>
           ((\<exists>(k, a) \<in> set partial. absent h a) \<longrightarrow> absent h' res \<and> res < length h)"
proof -
  let ?pre = "takeWhile (\<lambda>(k, a). \<not> absent h a) partial"
  let ?rest = "dropWhile (\<lambda>(k, a). \<not> absent h a) partial"
  note s = split_at_first_absent [OF o]
  have d': "distinct (map fst (?pre @ ?rest))"
    using d by simp
  have np': "''__proto__'' \<notin> set (map fst ?pre)"
    using np by (auto dest!: set_takeWhileD)
  obtain res h' where g: "group (?pre @ ?rest) h = (Inr res, h')"
    and rec: "lookup h' (length h) =
             Some (Obj (Other False Object_prototype_names)
                    (map (\<lambda>(k, a). (k, payload h a)) ?pre))"
    and frame: "\<forall>a < length h. lookup h' a = lookup h a"
    and all: "?rest = [] \<longrightarrow> present h' res (VRef (length h))"
    and some: "?rest \<noteq> [] \<longrightarrow> res = snd (hd ?rest) \<and> absent h' res"
    using group_pre_rest [OF d' s(2) s(3) np'] by blast
  have g': "group partial h = (Inr res, h')"
    using g by simp
  have lt: "res < length h" if "?rest \<noteq> []"
    using that s(3) some absent_lt by auto
  show ?thesis
    using g' rec frame all some lt s(4) by blast
qed



lemma two_somes_facts:
  "absent two_somes 0" "present two_somes (Suc 0) (VNum 1)" "present two_somes 2 (VNum 2)"
  "length two_somes = 3" "\<not> absent two_somes (Suc 0)" "\<not> absent two_somes 2"
  "payload two_somes (Suc 0) = VNum 1" "payload two_somes 2 = VNum 2"
proof -
  show a: "absent two_somes 0" and p1: "present two_somes (Suc 0) (VNum 1)"
    and p2: "present two_somes 2 (VNum 2)" and "length two_somes = 3"
    and "\<not> absent two_somes (Suc 0)" and "\<not> absent two_somes 2"
    by (simp_all add: absent_def present_def lookup_def two_somes_eq)
  show "payload two_somes (Suc 0) = VNum 1" "payload two_somes 2 = VNum 2"
    using p1 p2 by (simp_all add: payload_present)
qed


subsection \<open>Which fields are assigned onto the record\<close>

text \<open>
  \<open>group({ a: some(1), b: empty })\<close> in the store \<open>two_somes\<close>: the result is the
  Absent \<open>empty\<close>, and the record that the call created at address 3 has received the
  field \<open>a\<close>, although it is not returned.
\<close>

theorem group_assigns_discarded_record:
  "lookup two_somes 3 = None \<and>
   fst (group [(''a'', 1), (''b'', 0)] two_somes) = Inr 0 \<and>
   absent (snd (group [(''a'', 1), (''b'', 0)] two_somes)) 0 \<and>
   lookup (snd (group [(''a'', 1), (''b'', 0)] two_somes)) 3
     = Some (Obj (Other False Object_prototype_names) [(''a'', VNum 1)])"
proof -
  have "group [(''a'', 1), (''b'', 0)] two_somes =
     (Inr 0,
      two_somes @
      [Obj (Other False Object_prototype_names) [(''a'', VNum 1)],
       Obj Some_instance [(''value'', VRef 3)],
       Obj (Other False Object_prototype_names) [(''a'', VNum 1)],
       Obj Some_instance [(''value'', VRef 3)]])"
    by (simp add: group_def object_literal_def new_def seq_def some_eq two_somes_eq
        group_callback_def Optional_chain_def Optional_map_def dispatch_def lookup_def
        Some_chain_def Some_map_def Empty_map_def Empty_chain_def get_field_def
        Object_assign_def assign_property_def Object_prototype_names_def
        new_Some_def ok_def)
  then show ?thesis
    by (simp add: two_somes_eq lookup_def absent_def)
qed

text \<open>
  C2, as the code has it. Every field is an Optional and no key is \<open>__proto__\<close>. The
  record created by the call receives exactly the fields that stand before the first
  Absent field, in order, each with the payload of its Optional; the first Absent field and the fields after it are
  never assigned. No object that existed before the call is changed. When no field is
  Absent the record is the payload of the returned Present; when some field is Absent
  the result is an Absent that existed before the call, and the record, with the fields
  it has received, is not returned.
\<close>

theorem group_assignments:
  assumes "distinct (map fst partial)"
    and "\<forall>(k, a) \<in> set partial. absent h a \<or> (\<exists>v. present h a v)"
    and "''__proto__'' \<notin> set (map fst partial)"
  shows "\<exists>res h'. group partial h = (Inr res, h') \<and>
           lookup h' (length h) =
             Some (Obj (Other False Object_prototype_names)
                    (map (\<lambda>(k, a). (k, payload h a))
                       (takeWhile (\<lambda>(k, a). \<not> absent h a) partial))) \<and>
           (\<forall>a < length h. lookup h' a = lookup h a) \<and>
           ((\<forall>(k, a) \<in> set partial. \<not> absent h a) \<longrightarrow> present h' res (VRef (length h))) \<and>
           ((\<exists>(k, a) \<in> set partial. absent h a) \<longrightarrow> absent h' res \<and> res < length h)"
  using assms by (rule group_general)

theorem group_assignments_witness:
  "\<exists>res h'. group [(''a'', 1), (''b'', 0), (''c'', 2)] two_somes = (Inr res, h') \<and>
      lookup h' 3 = Some (Obj (Other False Object_prototype_names) [(''a'', VNum 1)]) \<and>
      absent h' res \<and> res < 3"
proof -
  have d: "distinct (map fst [(''a'', 1::nat), (''b'', 0), (''c'', 2)])"
    by simp
  have opt: "\<forall>(k, a) \<in> set [(''a'', 1), (''b'', 0), (''c'', 2)].
               absent two_somes a \<or> (\<exists>v. present two_somes a v)"
    using two_somes_facts(1,2,3) by auto
  have np: "''__proto__'' \<notin> set (map fst [(''a'', 1::nat), (''b'', 0), (''c'', 2)])"
    by simp
  show ?thesis
    using group_assignments [OF d opt np]
    by (simp add: two_somes_facts, blast)
qed

section \<open>Exceptions\<close>




























end
